theory Spec2Isabelle
  imports Main "HOL-Library.Word" "HOL-Library.Multiset"
begin

section \<open>The profiling agent of src/index.ts\<close>

text \<open>
  The module keeps three globals (\<open>config\<close>, \<open>heapProfilingTimer\<close>,
  \<open>isCpuProfilingRunning\<close>) and talks to four outside capabilities: the sampling
  profiler, the profile encoder, the HTTP transport and the source mapper. A JavaScript
  program runs one callback at a time, each to its end, so the module is modelled as a
  state machine: a \<open>world\<close> holds the globals and what the runtime holds for the module
  (operations in flight, interval timers, requests sent, log calls), and every step is
  either a call of an exported function or the completion of one operation in flight,
  which runs the callback the source registered for it.

  The outside capabilities are not modelled beyond what the module sees of them: a
  capture resolves with some profile, the encoder answers with some bytes or fails, a
  request is answered or fails with an \<open>AxiosError\<close>, a source mapper is delivered.
  The order in which operations in flight complete is left open, and so is the time they
  take. Left out are \<open>writeProfileAsync\<close> with its counter \<open>chunk\<close>, which nothing in
  the module calls, and the start-up hook at the end of the file, which is a call
  \<open>init()\<close> like any other. No function of the module has a \<open>throw\<close> on the paths
  modelled here; what can fail is a promise. The failures of the encoder and of the
  request are steps of the model; a capture or a source mapper that fails is not, such
  an operation stays in flight. A rejection that no handler of the module observes is
  taken the way Node takes it by default: it ends the process.
\<close>

subsection \<open>Data\<close>

text \<open>
  \<open>TagList = Record<string, any>\<close>: the entries of the object in the order in which
  \<open>Object.keys\<close> enumerates them. The keys of an object are pairwise different;
  values are strings, as the tag mapping has them.
\<close>

type_synonym TagList = "(string \<times> string) list"

type_synonym SourceMapper = nat

type_synonym bytes = "8 word list"

text \<open>A profile is an opaque snapshot made by the profiler.\<close>

datatype profile = Profile nat

text \<open>\<open>interface PyroscopeConfig\<close>, the type of the global \<open>config\<close>.\<close>

record PyroscopeConfig =
  server :: string
  name :: string
  sourceMapPath :: "string list option"
  autoStart :: bool
  sm :: "SourceMapper option"
  tags :: TagList

text \<open>
  The value a caller passes to \<open>init\<close>. It has the same interface; the \<open>server\<close>
  field is optional here because the source reads it with \<open>c.server || DEFAULT_SERVER\<close>,
  which also serves a caller that left the field out (\<open>None\<close> is \<open>undefined\<close>).
  \<open>init\<close> never reads \<open>c.sm\<close>, which is therefore not part of the value.
\<close>

record init_config =
  c_server :: "string option"
  c_name :: string
  c_sourceMapPath :: "string list option"
  c_autoStart :: bool
  c_tags :: TagList

text \<open>\<open>perftools.profiles.Label.create({key, str})\<close>.\<close>

record Label =
  key :: string
  str :: string

text \<open>The part appended to the form: \<open>formData.append('profile', buf, {...})\<close>.\<close>

record form_part =
  field :: string
  content :: bytes
  knownLength :: nat
  contentType :: string
  filename :: string

text \<open>The request handed to \<open>axios(url, {method, headers, data})\<close>.\<close>

record request =
  url :: string
  http_method :: string
  formData :: "form_part list"

record response =
  status :: nat
  data :: string

text \<open>
  \<open>AxiosError\<close>: \<open>error.response\<close> is set when the server answered with a status
  outside 2xx, \<open>error.request\<close> when the request was sent and no answer came.
\<close>

record AxiosError =
  err_response :: "response option"
  err_request :: "request option"
  message :: string

text \<open>The options of a \<open>pprof.time.profile\<close> call.\<close>

record time_profile_options =
  lineNumbers :: bool
  sourceMapper :: "SourceMapper option"
  durationMillis :: nat
  intervalMicros :: nat

text \<open>
  A timer made by \<open>setInterval\<close>: its handle, its period, and the source mapper that
  its callback holds.
\<close>

record interval_timer =
  handle :: nat
  period :: nat
  mapper :: SourceMapper

text \<open>Who called \<open>uploadProfile\<close>: its caller's continuation runs when it settles.\<close>

datatype origin = CpuRound | HeapTick

text \<open>
  An operation in flight. \<open>Capture l\<close> is a \<open>pprof.time.profile\<close> call made by the
  closure \<open>profilingRound\<close> number \<open>l\<close> (every call of \<open>startCpuProfiling\<close> creates a new
  closure), \<open>Immediate l\<close> is \<open>setImmediate(profilingRound)\<close> of that closure.
\<close>

datatype task =
    Capture nat
  | Immediate nat
  | Encode profile origin
  | Http request origin
  | ConfigMapper "string list"
  | HeapMapper

record world =
  config :: PyroscopeConfig
  heapProfilingTimer :: "nat option"
  isCpuProfilingRunning :: bool
  pending :: "task list"
  time_profiles :: "time_profile_options list"
  timers :: "interval_timer list"
  next_timer :: nat
  next_loop :: nat
  heap_starts :: "(nat \<times> nat) list"
  sent :: "request list"
  logged :: "string list list"
  unhandled :: nat

subsection \<open>Constants and the initial state\<close>

definition INTERVAL :: nat where
  "INTERVAL = 10000"

definition SAMPLERATE :: nat where
  "SAMPLERATE = 100"

definition DEFAULT_SERVER :: string where
  "DEFAULT_SERVER = ''http://localhost:4040''"

definition initial_config :: PyroscopeConfig where
  "initial_config =
     \<lparr>server = DEFAULT_SERVER, name = ''nodejs'', sourceMapPath = None,
      autoStart = True, sm = None, tags = []\<rparr>"

definition initial_world :: world where
  "initial_world =
     \<lparr>config = initial_config, heapProfilingTimer = None, isCpuProfilingRunning = False,
      pending = [], time_profiles = [], timers = [], next_timer = 0, next_loop = 0,
      heap_starts = [], sent = [], logged = [], unhandled = 0\<rparr>"

text \<open>The default value of the parameter of \<open>init\<close>.\<close>

definition default_c :: init_config where
  "default_c =
     \<lparr>c_server = Some DEFAULT_SERVER, c_name = ''nodejs'', c_sourceMapPath = None,
      c_autoStart = True, c_tags = []\<rparr>"

subsection \<open>What JavaScript does with strings\<close>

text \<open>A number in a template literal, for the natural numbers.\<close>

definition digit :: "nat \<Rightarrow> char" where
  "digit d = char_of (48 + d)"

fun number_toString :: "nat \<Rightarrow> string" where
  "number_toString n =
     (if n < 10 then [digit n] else number_toString (n div 10) @ [digit (n mod 10)])"

declare number_toString.simps [simp del]

text \<open>\<open>Array.prototype.join\<close>; an array in a template literal is \<open>join(',')\<close>.\<close>

fun join :: "string \<Rightarrow> string list \<Rightarrow> string" where
  "join sep [] = []"
| "join sep [x] = x"
| "join sep (x # y # ys) = x @ sep @ join sep (y # ys)"

definition array_toString :: "string list \<Rightarrow> string" where
  "array_toString xs = join '','' xs"

definition Object_keys :: "TagList \<Rightarrow> string list" where
  "Object_keys t = map fst t"

text \<open>\<open>tags[t]\<close> in a string position: a missing property prints as \<open>undefined\<close>.\<close>

definition property :: "TagList \<Rightarrow> string \<Rightarrow> string" where
  "property t k = (case map_of t k of Some v \<Rightarrow> v | None \<Rightarrow> ''undefined'')"

text \<open>\<open>a || b\<close> on an optional string: \<open>undefined\<close> and the empty string are falsy.\<close>

definition or_else :: "string option \<Rightarrow> string \<Rightarrow> string" where
  "or_else a b = (case a of None \<Rightarrow> b | Some s \<Rightarrow> if s = [] then b else s)"

subsection \<open>Logging\<close>

text \<open>One call of \<open>log\<close> is recorded with its arguments.\<close>

definition log :: "string list \<Rightarrow> world \<Rightarrow> world" where
  "log args w = w\<lparr>logged := logged w @ [args]\<rparr>"

definition await :: "task \<Rightarrow> world \<Rightarrow> world" where
  "await t w = w\<lparr>pending := pending w @ [t]\<rparr>"

subsection \<open>Tags\<close>

definition tagListToLabels :: "TagList \<Rightarrow> Label list" where
  "tagListToLabels t = map (\<lambda>k. \<lparr>key = k, str = property t k\<rparr>) (Object_keys t)"

text \<open>The local \<open>tagList\<close> of \<open>uploadProfile\<close> and the URL built from it.\<close>

definition tagList :: "TagList \<Rightarrow> string list" where
  "tagList t = map (\<lambda>k. k @ ''='' @ property t k) (Object_keys t)"

definition upload_url :: "PyroscopeConfig \<Rightarrow> string" where
  "upload_url c =
     server c @ ''/ingest?name='' @ name c @ ''{'' @ array_toString (tagList (tags c))
       @ ''}&sampleRate='' @ number_toString SAMPLERATE"

subsection \<open>The upload pipeline\<close>

definition handleError :: "AxiosError \<Rightarrow> world \<Rightarrow> world" where
  "handleError error w =
     (case err_response error of
        Some r \<Rightarrow>
          log [data r] (log [''Pyroscope received error while ingesting data to server''] w)
      | None \<Rightarrow>
          (case err_request error of
             Some q \<Rightarrow> log [''Error when ingesting data to server:'', message error] w
           | None \<Rightarrow> log [''Error'', message error] w))"

text \<open>
  \<open>uploadProfile\<close> is an async function with one \<open>await\<close>. Up to it, the function
  calls \<open>pprof.encode\<close>; when the encoder has answered with \<open>buf\<close>, the function
  builds the form and the URL from the configuration of that moment and sends the request.
\<close>

definition uploadProfile :: "profile \<Rightarrow> origin \<Rightarrow> world \<Rightarrow> world" where
  "uploadProfile p caller w = await (Encode p caller) w"

definition build_request :: "PyroscopeConfig \<Rightarrow> bytes \<Rightarrow> request" where
  "build_request c buf =
     \<lparr>url = upload_url c, http_method = ''POST'',
      formData = [\<lparr>field = ''profile'', content = buf, knownLength = length buf,
                   contentType = ''text/json'', filename = ''profile''\<rparr>]\<rparr>"

definition uploadProfile_encoded :: "bytes \<Rightarrow> origin \<Rightarrow> world \<Rightarrow> world" where
  "uploadProfile_encoded buf caller w =
     (let req = build_request (config w) buf;
          w1 = log [''Sending data to '' @ url req] w;
          w2 = w1\<lparr>sent := sent w1 @ [req]\<rparr>
      in await (Http req caller) w2)"

text \<open>
  How the promise returned by \<open>uploadProfile\<close> settles. \<open>axios(...).catch(handleError)\<close>
  is fulfilled with the response, or with \<open>undefined\<close> after \<open>handleError\<close> has run;
  a failure of the encoder rejects the promise of \<open>uploadProfile\<close> itself.
\<close>

datatype settled = Fulfilled "response option" | Rejected

definition axios_catch :: "AxiosError + response \<Rightarrow> world \<Rightarrow> settled \<times> world" where
  "axios_catch outcome w =
     (case outcome of
        Inr r \<Rightarrow> (Fulfilled (Some r), w)
      | Inl error \<Rightarrow> (Fulfilled None, handleError error w))"

text \<open>
  A rejection that nothing observes. Node's default (since version 15) raises it as an
  uncaught exception, and the module installs no handler for either, so the process
  ends: what was in flight never completes and no timer fires again. The rejection is
  counted in \<open>unhandled\<close>.
\<close>

definition unhandledRejection :: "world \<Rightarrow> world" where
  "unhandledRejection w = w\<lparr>pending := [], timers := [], unhandled := unhandled w + 1\<rparr>"

text \<open>
  The caller's continuation: \<open>.then((d) => log('CPU Profile has been uploaded'))\<close> in a
  CPU round, the statement after \<open>await uploadProfile(profile)\<close> in a heap tick. Both
  run when the promise of \<open>uploadProfile\<close> is fulfilled. When it is rejected, the chain of
  the CPU round has no \<open>catch\<close> and the callback of the heap timer is an async function
  whose promise nobody holds: the rejection is unhandled.
\<close>

definition uploaded :: "origin \<Rightarrow> settled \<times> world \<Rightarrow> world" where
  "uploaded caller sw =
     (case fst sw of
        Fulfilled d \<Rightarrow>
          (case caller of
             CpuRound \<Rightarrow> log [''CPU Profile has been uploaded''] (snd sw)
           | HeapTick \<Rightarrow> log [''Heap profile uploaded...''] (snd sw))
      | Rejected \<Rightarrow> unhandledRejection (snd sw))"

subsection \<open>The CPU profiling loop\<close>

text \<open>The call \<open>pprof.time.profile({...})\<close>, with the options the source gives it.\<close>

definition time_profile :: "world \<Rightarrow> world" where
  "time_profile w =
     w\<lparr>time_profiles := time_profiles w @
          [\<lparr>lineNumbers = True, sourceMapper = sm (config w), durationMillis = INTERVAL,
            intervalMicros = 10000\<rparr>]\<rparr>"

definition profilingRound :: "nat \<Rightarrow> world \<Rightarrow> world" where
  "profilingRound l w =
     await (Capture l) (time_profile (log [''Collecting CPU Profile''] w))"

text \<open>The first \<open>.then\<close> of a round, run with the captured profile.\<close>

definition profilingRound_then :: "nat \<Rightarrow> profile \<Rightarrow> world \<Rightarrow> world" where
  "profilingRound_then l p w =
     (let w1 = log [''CPU Profile collected''] w;
          w2 = (if isCpuProfilingRunning w1 then await (Immediate l) w1 else w1);
          w3 = log [''CPU Profile uploading''] w2
      in uploadProfile p CpuRound w3)"

definition startCpuProfiling :: "TagList \<Rightarrow> world \<Rightarrow> world" where
  "startCpuProfiling tgs w =
     (let w1 = log [''Pyroscope has started CPU Profiling''] w;
          w2 = w1\<lparr>isCpuProfilingRunning := True\<rparr>;
          l = next_loop w2;
          w3 = w2\<lparr>next_loop := Suc l\<rparr>
      in profilingRound l w3)"

definition stopCpuProfiling :: "world \<Rightarrow> world" where
  "stopCpuProfiling w = w\<lparr>isCpuProfilingRunning := False\<rparr>"

subsection \<open>The heap profiling session\<close>

definition intervalBytes :: nat where
  "intervalBytes = 1024 * 512"

definition stackDepth :: nat where
  "stackDepth = 32"

text \<open>
  \<open>startHeapProfiling\<close> is an async function with one \<open>await\<close>, after the test of the
  handle. The part after the \<open>await\<close> runs when the source mapper is there.
\<close>

definition startHeapProfiling :: "TagList \<Rightarrow> world \<Rightarrow> world" where
  "startHeapProfiling tgs w =
     (if heapProfilingTimer w \<noteq> None then w
      else await HeapMapper (log [''Pyroscope has started heap profiling''] w))"

definition startHeapProfiling_resumed :: "SourceMapper \<Rightarrow> world \<Rightarrow> world" where
  "startHeapProfiling_resumed m w =
     (let w1 = w\<lparr>heap_starts := heap_starts w @ [(intervalBytes, stackDepth)]\<rparr>;
          h = next_timer w1
      in w1\<lparr>timers := timers w1 @ [\<lparr>handle = h, period = INTERVAL, mapper = m\<rparr>],
             next_timer := Suc h, heapProfilingTimer := Some h\<rparr>)"

text \<open>The callback of \<open>setInterval\<close>, up to its \<open>await\<close>.\<close>

definition heap_tick :: "profile \<Rightarrow> world \<Rightarrow> world" where
  "heap_tick p w =
     uploadProfile p HeapTick
       (log [''Heap profile collected...''] (log [''Collecting heap profile''] w))"

definition stopHeapProfiling :: "world \<Rightarrow> world" where
  "stopHeapProfiling w =
     (case heapProfilingTimer w of
        Some h \<Rightarrow>
          (log [''Stopping heap profiling''] w)
            \<lparr>timers := filter (\<lambda>t. handle t \<noteq> h) (timers w),
             heapProfilingTimer := None\<rparr>
      | None \<Rightarrow> w)"

subsection \<open>The session controller\<close>

text \<open>
  \<open>init(c)\<close>; \<open>None\<close> is a call without argument, which takes the default value of
  the parameter. The parameter's type has no \<open>null\<close>, so the tests \<open>if (c)\<close> succeed.
\<close>

definition init :: "init_config option \<Rightarrow> world \<Rightarrow> world" where
  "init arg w =
     (let c = (case arg of None \<Rightarrow> default_c | Some c' \<Rightarrow> c');
          w1 = w\<lparr>config := (config w)\<lparr>server := or_else (c_server c) DEFAULT_SERVER,
                                        sourceMapPath := c_sourceMapPath c\<rparr>\<rparr>;
          w2 = (case sourceMapPath (config w1) of
                  Some paths \<Rightarrow> await (ConfigMapper paths) w1
                | None \<Rightarrow> w1);
          w3 = w2\<lparr>config := (config w2)\<lparr>tags := c_tags c\<rparr>\<rparr>
      in if c_autoStart c then startHeapProfiling [] (startCpuProfiling [] w3) else w3)"

subsection \<open>Steps\<close>

datatype event =
    Call_init "init_config option"
  | Call_startCpuProfiling TagList
  | Call_stopCpuProfiling
  | Call_startHeapProfiling TagList
  | Call_stopHeapProfiling
  | CaptureResolved nat profile
  | ImmediateRuns nat
  | EncodeResolved profile origin bytes
  | EncodeRejected profile origin
  | HttpResolved request origin response
  | HttpRejected request origin AxiosError
  | ConfigMapperResolved "string list" SourceMapper
  | HeapMapperResolved SourceMapper
  | IntervalFires nat profile

text \<open>
  The completion of an operation takes it out of the operations in flight and runs
  its callback; it can only happen to an operation that is in flight.
\<close>

definition complete :: "task \<Rightarrow> (world \<Rightarrow> world) \<Rightarrow> world \<Rightarrow> world option" where
  "complete t k w =
     (if t \<in> set (pending w) then Some (k (w\<lparr>pending := remove1 t (pending w)\<rparr>))
      else None)"

fun step :: "event \<Rightarrow> world \<Rightarrow> world option" where
  "step (Call_init arg) w = Some (init arg w)"
| "step (Call_startCpuProfiling tgs) w = Some (startCpuProfiling tgs w)"
| "step Call_stopCpuProfiling w = Some (stopCpuProfiling w)"
| "step (Call_startHeapProfiling tgs) w = Some (startHeapProfiling tgs w)"
| "step Call_stopHeapProfiling w = Some (stopHeapProfiling w)"
| "step (CaptureResolved l p) w = complete (Capture l) (profilingRound_then l p) w"
| "step (ImmediateRuns l) w = complete (Immediate l) (profilingRound l) w"
| "step (EncodeResolved p caller buf) w =
     complete (Encode p caller) (uploadProfile_encoded buf caller) w"
| "step (EncodeRejected p caller) w =
     complete (Encode p caller) (\<lambda>w'. uploaded caller (Rejected, w')) w"
| "step (HttpResolved req caller r) w =
     complete (Http req caller) (\<lambda>w'. uploaded caller (axios_catch (Inr r) w')) w"
| "step (HttpRejected req caller error) w =
     complete (Http req caller) (\<lambda>w'. uploaded caller (axios_catch (Inl error) w')) w"
| "step (ConfigMapperResolved paths m) w =
     complete (ConfigMapper paths) (\<lambda>w'. w'\<lparr>config := (config w')\<lparr>sm := Some m\<rparr>\<rparr>) w"
| "step (HeapMapperResolved m) w = complete HeapMapper (startHeapProfiling_resumed m) w"
| "step (IntervalFires h p) w =
     (if h \<in> handle ` set (timers w) then Some (heap_tick p w) else None)"

fun exec :: "event list \<Rightarrow> world \<Rightarrow> world option" where
  "exec [] w = Some w"
| "exec (e # es) w = (case step e w of None \<Rightarrow> None | Some w' \<Rightarrow> exec es w')"

subsection \<open>Notions used to state the properties\<close>

text \<open>An event with the argument of a start call replaced by the empty object.\<close>

fun forget_tags :: "event \<Rightarrow> event" where
  "forget_tags (Call_startCpuProfiling tgs) = Call_startCpuProfiling []"
| "forget_tags (Call_startHeapProfiling tgs) = Call_startHeapProfiling []"
| "forget_tags e = e"

text \<open>
  The events of an upload whose encoder has answered: that answer, and the two ways the
  request can end.
\<close>

fun request_event :: "event \<Rightarrow> bool" where
  "request_event (EncodeResolved p caller buf) = True"
| "request_event (HttpResolved req caller r) = True"
| "request_event (HttpRejected req caller error) = True"
| "request_event e = False"

text \<open>
  The rounds of the loop \<open>l\<close> that exist at a moment: captures in flight and
  runs of \<open>profilingRound\<close> that \<open>setImmediate\<close> has queued.
\<close>

definition rounds :: "nat \<Rightarrow> world \<Rightarrow> nat" where
  "rounds l w = count_list (pending w) (Capture l) + count_list (pending w) (Immediate l)"

subsection \<open>A configuration for the end-to-end scenario\<close>

text \<open>\<open>{server: "http://example:4040", name: "svc", tags: {env: "prod"}, autoStart: false}\<close>\<close>

definition svc :: init_config where
  "svc = \<lparr>c_server = Some ''http://example:4040'', c_name = ''svc'',
           c_sourceMapPath = None, c_autoStart = False, c_tags = [(''env'', ''prod'')]\<rparr>"

section \<open>Properties\<close>

subsection \<open>Strings and tags\<close>

lemma number_toString_SAMPLERATE: "number_toString SAMPLERATE = ''100''"
  by code_simp

lemma property_entry: "distinct (map fst t) \<Longrightarrow> (k, v) \<in> set t \<Longrightarrow> property t k = v"
  by (simp add: property_def)

lemma labels_entries:
  assumes "distinct (map fst t)"
  shows "map (\<lambda>lb. (key lb, str lb)) (tagListToLabels t) = t"
proof -
  have "map (\<lambda>x. (fst x, property t (fst x))) t = t"
    by (rule map_idI) (use assms in \<open>auto simp: property_entry\<close>)
  then show ?thesis
    by (simp add: tagListToLabels_def Object_keys_def o_def)
qed

lemma tagList_entries:
  "distinct (map fst t) \<Longrightarrow> tagList t = map (\<lambda>(k, v). k @ ''='' @ v) t"
  by (auto simp: tagList_def Object_keys_def property_entry)

lemma card_keys: "distinct (map fst t) \<Longrightarrow> card (dom (map_of t)) = length t"
  using distinct_card [of "map fst t"] by (simp add: dom_map_of_conv_image_fst)

text \<open>
  Claim C3. For a tag mapping \<open>T\<close> (an object: its keys are pairwise different), the
  labels made by \<open>tagListToLabels\<close> are as many as \<open>T\<close> has entries, and read as
  (key, value) pairs they are the entries of \<open>T\<close>, in order; the upload URL carries,
  between braces, the \<open>key=value\<close> strings of all entries of \<open>T\<close> joined by commas.
\<close>

theorem tags_to_labels_and_url:
  assumes "distinct (map fst T)"
  shows "length (tagListToLabels T) = card (dom (map_of T)) \<and>
     map (\<lambda>lb. (key lb, str lb)) (tagListToLabels T) = T \<and>
     upload_url (c\<lparr>tags := T\<rparr>) =
       server c @ ''/ingest?name='' @ name c @ ''{''
         @ join '','' (map (\<lambda>(k, v). k @ ''='' @ v) T) @ ''}&sampleRate=100''"
proof -
  have "length (tagListToLabels T) = length T"
    by (simp add: tagListToLabels_def Object_keys_def)
  then have "length (tagListToLabels T) = card (dom (map_of T))"
    using assms by (simp add: card_keys)
  moreover have "map (\<lambda>lb. (key lb, str lb)) (tagListToLabels T) = T"
    using assms by (rule labels_entries)
  moreover have "upload_url (c\<lparr>tags := T\<rparr>) =
       server c @ ''/ingest?name='' @ name c @ ''{''
         @ join '','' (map (\<lambda>(k, v). k @ ''='' @ v) T) @ ''}&sampleRate=100''"
    using assms
    by (simp add: upload_url_def array_toString_def number_toString_SAMPLERATE
        tagList_entries)
  ultimately show ?thesis by blast
qed

theorem tags_to_labels_and_url_witness:
  "distinct (map fst [(''env'', ''prod''), (''region'', ''eu'')]) \<and>
   tagListToLabels [(''env'', ''prod''), (''region'', ''eu'')] =
     [\<lparr>key = ''env'', str = ''prod''\<rparr>, \<lparr>key = ''region'', str = ''eu''\<rparr>] \<and>
   upload_url (initial_config\<lparr>tags := [(''env'', ''prod''), (''region'', ''eu'')]\<rparr>) =
     ''http://localhost:4040/ingest?name=nodejs{env=prod,region=eu}&sampleRate=100''"
  using tags_to_labels_and_url [of "[(''env'', ''prod''), (''region'', ''eu'')]" initial_config]
  by (simp add: initial_config_def DEFAULT_SERVER_def tagListToLabels_def Object_keys_def
      property_def)

subsection \<open>The configuration call\<close>

lemmas call_defs = init_def startCpuProfiling_def stopCpuProfiling_def
  startHeapProfiling_def startHeapProfiling_resumed_def stopHeapProfiling_def
  time_profile_def profilingRound_def profilingRound_then_def heap_tick_def
  uploadProfile_def uploadProfile_encoded_def uploaded_def unhandledRejection_def
  axios_catch_def handleError_def log_def await_def complete_def Let_def

lemma upload_url_parts:
  "upload_url c =
     server c @ ''/ingest?name='' @ name c @ ''{'' @ join '','' (tagList (tags c))
       @ ''}&sampleRate=100''"
  by (simp add: upload_url_def array_toString_def number_toString_SAMPLERATE)

text \<open>
  Claim C9. After \<open>init\<close> the global server URL is the supplied server string when that
  string is not empty, and \<open>http://localhost:4040\<close> when the server field is absent or
  empty, or when \<open>init\<close> is called without a configuration.
\<close>

theorem init_server:
  "server (config (init None w)) = ''http://localhost:4040'' \<and>
   server (config (init (Some c) w)) =
     (case c_server c of
        None \<Rightarrow> ''http://localhost:4040''
      | Some s \<Rightarrow> if s = [] then ''http://localhost:4040'' else s)"
  by (simp add: call_defs or_else_def default_c_def DEFAULT_SERVER_def
      split: option.splits)

text \<open>No step of the module assigns \<open>config.name\<close>.\<close>

lemma step_name: "step e w = Some w' \<Longrightarrow> name (config w') = name (config w)"
  by (cases e) (auto simp: call_defs split: option.splits if_splits origin.splits)

text \<open>A step sends at most one request, built from the configuration of that moment.\<close>

lemma step_sent:
  "step e w = Some w' \<Longrightarrow>
     sent w' = sent w \<or> (\<exists>buf. sent w' = sent w @ [build_request (config w) buf])"
  by (cases e) (auto simp: call_defs split: option.splits if_splits origin.splits)

lemma exec_name_sent:
  "exec evs w = Some w' \<Longrightarrow>
     name (config w') = name (config w) \<and>
     (\<exists>rs. sent w' = sent w @ rs \<and>
        (\<forall>r\<in>set rs. \<exists>c buf. r = build_request c buf \<and> name c = name (config w)))"
proof (induction evs arbitrary: w)
  case Nil
  then show ?case by simp
next
  case (Cons e es)
  then obtain w1 where s: "step e w = Some w1" and r: "exec es w1 = Some w'"
    by (auto split: option.splits)
  have n1: "name (config w1) = name (config w)"
    using s by (rule step_name)
  from Cons.IH [OF r] obtain rs where
    n: "name (config w') = name (config w1)" and
    rs: "sent w' = sent w1 @ rs"
      "\<forall>r\<in>set rs. \<exists>c buf. r = build_request c buf \<and> name c = name (config w1)"
    by blast
  from step_sent [OF s] show ?case
  proof
    assume "sent w1 = sent w"
    then show ?thesis using n n1 rs by auto
  next
    assume "\<exists>buf. sent w1 = sent w @ [build_request (config w) buf]"
    then obtain buf where "sent w1 = sent w @ [build_request (config w) buf]" ..
    then have "sent w' = sent w @ (build_request (config w) buf # rs)"
      using rs(1) by simp
    moreover have "\<forall>r\<in>set (build_request (config w) buf # rs).
        \<exists>c buf. r = build_request c buf \<and> name c = name (config w)"
      using rs(2) n1 by auto
    ultimately have "\<exists>rs. sent w' = sent w @ rs \<and>
        (\<forall>r\<in>set rs. \<exists>c buf. r = build_request c buf \<and> name c = name (config w))"
      by blast
    then show ?thesis using n n1 by simp
  qed
qed

text \<open>The end-to-end scenario, step by step, for any profile and any encoder output.\<close>

lemma svc_round:
  "exec [Call_init (Some svc), Call_startCpuProfiling [], Call_stopCpuProfiling,
         CaptureResolved 0 p, EncodeResolved p CpuRound buf] initial_world =
   Some \<lparr>config = \<lparr>server = ''http://example:4040'', name = ''nodejs'', sourceMapPath = None,
              autoStart = True, sm = None, tags = [(''env'', ''prod'')]\<rparr>,
          heapProfilingTimer = None, isCpuProfilingRunning = False,
          pending = [Http \<lparr>url = ''http://example:4040/ingest?name=nodejs{env=prod}&sampleRate=100'',
                            http_method = ''POST'',
                            formData = [\<lparr>field = ''profile'', content = buf,
                                         knownLength = length buf,
                                         contentType = ''text/json'',
                                         filename = ''profile''\<rparr>]\<rparr> CpuRound],
          time_profiles = [\<lparr>lineNumbers = True, sourceMapper = None,
                             durationMillis = 10000, intervalMicros = 10000\<rparr>],
          timers = [], next_timer = 0, next_loop = 1, heap_starts = [],
          sent = [\<lparr>url = ''http://example:4040/ingest?name=nodejs{env=prod}&sampleRate=100'',
                    http_method = ''POST'',
                    formData = [\<lparr>field = ''profile'', content = buf,
                                 knownLength = length buf,
                                 contentType = ''text/json'',
                                 filename = ''profile''\<rparr>]\<rparr>],
          logged = [[''Pyroscope has started CPU Profiling''], [''Collecting CPU Profile''],
                    [''CPU Profile collected''], [''CPU Profile uploading''],
                    [''Sending data to http://example:4040/ingest?name=nodejs{env=prod}&sampleRate=100'']],
          unhandled = 0\<rparr>"
  by (simp add: svc_def initial_world_def initial_config_def call_defs or_else_def
      build_request_def upload_url_parts tagList_def Object_keys_def property_def
      DEFAULT_SERVER_def INTERVAL_def)

text \<open>
  Claim C1, on the code. After \<open>init\<close> with the configuration \<open>svc\<close>, one CPU round
  (started, stopped so that no second round follows, its capture resolved with a profile
  \<open>p\<close> and the encoder answering \<open>buf\<close>) sends exactly one request. Its body carries
  \<open>buf\<close> unchanged, but its URL names the application \<open>nodejs\<close>, not \<open>svc\<close>:
  \<open>init\<close> copies \<open>server\<close>, \<open>sourceMapPath\<close> and \<open>tags\<close> from its argument and
  leaves \<open>name\<close> out.
\<close>

theorem svc_round_url:
  "\<exists>w. exec [Call_init (Some svc), Call_startCpuProfiling [], Call_stopCpuProfiling,
         CaptureResolved 0 p, EncodeResolved p CpuRound buf] initial_world = Some w \<and>
     map url (sent w) = [''http://example:4040/ingest?name=nodejs{env=prod}&sampleRate=100''] \<and>
     map url (sent w) \<noteq> [''http://example:4040/ingest?name=svc{env=prod}&sampleRate=100''] \<and>
     map (map content \<circ> formData) (sent w) = [[buf]]"
  by (subst svc_round) simp

text \<open>
  Claim C2. \<open>init\<close> leaves \<open>config.name\<close> as it was, whatever configuration it is given;
  and since no other step assigns the field either, every request sent after the call,
  whatever happens in between, has in its URL the name that \<open>config\<close> held before the call.
  From the initial state that name is \<open>nodejs\<close>.
\<close>

theorem init_keeps_name:
  assumes "exec (Call_init arg # evs) w = Some w'"
  shows "name (config (init arg w)) = name (config w) \<and>
     name (config w') = name (config w) \<and>
     (\<forall>r\<in>set (drop (length (sent w)) (sent w')).
        \<exists>srv tgs. url r = srv @ ''/ingest?name='' @ name (config w) @ ''{'' @ tgs
          @ ''}&sampleRate=100'')"
proof -
  have a: "name (config (init arg w)) = name (config w)"
    using step_name [of "Call_init arg" w] by simp
  from exec_name_sent [OF assms] obtain rs where
    n: "name (config w') = name (config w)" and
    rs: "sent w' = sent w @ rs"
      "\<forall>r\<in>set rs. \<exists>c buf. r = build_request c buf \<and> name c = name (config w)"
    by blast
  have "\<exists>srv tgs. url r = srv @ ''/ingest?name='' @ name (config w) @ ''{'' @ tgs
          @ ''}&sampleRate=100''" if "r \<in> set rs" for r
  proof -
    from that rs(2) obtain c buf where "r = build_request c buf" "name c = name (config w)"
      by blast
    then have "url r = server c @ ''/ingest?name='' @ name (config w) @ ''{''
        @ join '','' (tagList (tags c)) @ ''}&sampleRate=100''"
      by (simp add: build_request_def upload_url_parts)
    then show ?thesis by blast
  qed
  then show ?thesis using a n rs(1) by simp
qed

theorem init_keeps_name_witness:
  "\<exists>w'. exec (Call_init (Some svc) # [Call_startCpuProfiling [], Call_stopCpuProfiling,
           CaptureResolved 0 (Profile 0), EncodeResolved (Profile 0) CpuRound [1, 2, 3]])
         initial_world = Some w' \<and>
       c_name svc = ''svc'' \<and> name (config w') = ''nodejs'' \<and>
       name (config (init (Some svc) initial_world)) = ''nodejs''"
proof -
  obtain w' where h: "exec (Call_init (Some svc) # [Call_startCpuProfiling [],
      Call_stopCpuProfiling, CaptureResolved 0 (Profile 0),
      EncodeResolved (Profile 0) CpuRound [1, 2, 3]]) initial_world = Some w'"
    using svc_round [of "Profile 0" "[1, 2, 3]"] by blast
  from init_keeps_name [OF h] have
    "name (config (init (Some svc) initial_world)) = name (config initial_world)"
    "name (config w') = name (config initial_world)"
    by blast+
  then show ?thesis
    using h by (simp add: initial_world_def initial_config_def svc_def del: exec.simps)
qed

subsection \<open>The upload pipeline\<close>

text \<open>
  Claim C5. Take any profile handed to \<open>uploadProfile\<close>, any bytes the encoder
  answers with, and any failure \<open>error\<close> of the request: the server answered outside
  2xx (\<open>error.response\<close> set), no answer came (only \<open>error.request\<close> set), or the
  request could not be set up (neither). The promise of \<open>axios(...).catch(handleError)\<close>
  is fulfilled, the continuation of the caller runs (its log call is the last one) and
  no rejection is left unobserved; one request was sent and nothing is in flight that
  was not before, so there is no retry; and the log calls in between are those of the
  class of the failure, which begin with three different texts.
\<close>

theorem upload_failure_handled:
  "\<exists>w'. exec [EncodeResolved p caller buf,
               HttpRejected (build_request (config w) buf) caller error]
           (uploadProfile p caller w) = Some w' \<and>
     fst (axios_catch (Inl error) v) = Fulfilled None \<and>
     unhandled w' = unhandled w \<and>
     sent w' = sent w @ [build_request (config w) buf] \<and>
     mset (pending w') = mset (pending w) \<and>
     logged w' = logged w @ [[''Sending data to '' @ upload_url (config w)]]
       @ (case err_response error of
            Some r \<Rightarrow> [[''Pyroscope received error while ingesting data to server''], [data r]]
          | None \<Rightarrow>
              (case err_request error of
                 Some q \<Rightarrow> [[''Error when ingesting data to server:'', message error]]
               | None \<Rightarrow> [[''Error'', message error]]))
       @ [[case caller of CpuRound \<Rightarrow> ''CPU Profile has been uploaded''
                       | HeapTick \<Rightarrow> ''Heap profile uploaded...'']]"
  by (cases caller) (simp_all add: call_defs build_request_def split: option.splits)

subsection \<open>The start calls\<close>

lemma step_forget_tags: "step (forget_tags e) w = step e w"
  by (cases e) (simp_all add: startCpuProfiling_def startHeapProfiling_def)

lemma exec_forget_tags: "exec (map forget_tags evs) w = exec evs w"
  by (induction evs arbitrary: w) (simp_all add: step_forget_tags split: option.splits)

text \<open>
  Claim C10. \<open>startCpuProfiling\<close> and \<open>startHeapProfiling\<close> do not read their \<open>tags\<close>
  parameter: two calls that differ in it only give the same state, and two histories
  that differ only in the arguments of their start calls end in the same state, requests
  sent included. The request that \<open>uploadProfile\<close> sends is built from the global
  \<open>config\<close>, its URL from the tags of \<open>config\<close>. (No function of the module calls
  \<open>tagListToLabels\<close>, so no label is attached to a profile at all.)
\<close>

theorem start_tags_unused:
  "startCpuProfiling t1 w = startCpuProfiling t2 w \<and>
   startHeapProfiling t1 w = startHeapProfiling t2 w \<and>
   (map forget_tags evs = map forget_tags evs' \<longrightarrow> exec evs w = exec evs' w) \<and>
   sent (uploadProfile_encoded buf caller w) = sent w @ [build_request (config w) buf] \<and>
   url (build_request (config w) buf) = upload_url (config w)"
proof -
  have "exec evs w = exec evs' w" if "map forget_tags evs = map forget_tags evs'"
    using exec_forget_tags [of evs w] exec_forget_tags [of evs' w] that by simp
  then show ?thesis
    by (simp add: startCpuProfiling_def startHeapProfiling_def uploadProfile_encoded_def
        build_request_def log_def await_def Let_def)
qed

theorem start_tags_unused_witness:
  "map forget_tags [Call_startCpuProfiling [(''env'', ''dev'')], Call_startHeapProfiling []] =
     map forget_tags [Call_startCpuProfiling [], Call_startHeapProfiling [(''a'', ''b'')]] \<and>
   exec [Call_startCpuProfiling [(''env'', ''dev'')], Call_startHeapProfiling []] initial_world =
     exec [Call_startCpuProfiling [], Call_startHeapProfiling [(''a'', ''b'')]] initial_world"
  using start_tags_unused [where w = initial_world
      and evs = "[Call_startCpuProfiling [(''env'', ''dev'')], Call_startHeapProfiling []]"
      and evs' = "[Call_startCpuProfiling [], Call_startHeapProfiling [(''a'', ''b'')]]"]
  by (simp del: exec.simps)

subsection \<open>The heap profiling session\<close>

text \<open>With the handle set, \<open>startHeapProfiling\<close> changes nothing.\<close>

lemma startHeapProfiling_running:
  "heapProfilingTimer w \<noteq> None \<Longrightarrow> startHeapProfiling tgs w = w"
  by (simp add: startHeapProfiling_def)

text \<open>
  Claim C4, on the code. \<open>startHeapProfiling\<close> tests the handle before its \<open>await\<close>
  and sets it after. Two calls in a row, the second made before the first has resumed,
  both pass the test: when both have resumed, two interval timers are active, the heap
  sampler has been started twice, and the handle names the second timer only, so that
  \<open>stopHeapProfiling\<close> leaves the first one running with no handle to it.
\<close>

theorem startHeapProfiling_twice:
  "\<exists>w. exec [Call_startHeapProfiling [], Call_startHeapProfiling [],
              HeapMapperResolved m, HeapMapperResolved m'] initial_world = Some w \<and>
       map handle (timers w) = [0, 1] \<and> heapProfilingTimer w = Some 1 \<and>
       heap_starts w = [(intervalBytes, stackDepth), (intervalBytes, stackDepth)] \<and>
       map handle (timers (stopHeapProfiling w)) = [0] \<and>
       heapProfilingTimer (stopHeapProfiling w) = None"
  by (simp add: initial_world_def call_defs)

subsection \<open>The CPU profiling loop\<close>

text \<open>
  Claim C7. With a capture of the loop \<open>l\<close> in flight, \<open>stopCpuProfiling\<close> clears the
  flag and leaves everything in flight as it is. When the capture then resolves with a
  profile \<open>p\<close>, the round goes on to upload \<open>p\<close> (the encoder is called, and once it
  has answered the request is sent) and schedules nothing: what is in flight afterwards
  is what was before, less the capture, plus the request.
\<close>

theorem stop_is_eventual:
  assumes "Capture l \<in> set (pending w)"
  shows "\<not> isCpuProfilingRunning (stopCpuProfiling w) \<and>
     pending (stopCpuProfiling w) = pending w \<and>
     (\<exists>w1 w2. exec [Call_stopCpuProfiling, CaptureResolved l p] w = Some w1 \<and>
        pending w1 = remove1 (Capture l) (pending w) @ [Encode p CpuRound] \<and>
        step (EncodeResolved p CpuRound buf) w1 = Some w2 \<and>
        sent w2 = sent w @ [build_request (config w) buf] \<and>
        mset (pending w2) =
          mset (pending w) - {#Capture l#} + {#Http (build_request (config w) buf) CpuRound#} \<and>
        \<not> isCpuProfilingRunning w2)"
  using assms by (simp add: call_defs)

theorem stop_is_eventual_witness:
  "Capture 0 \<in> set (pending (startCpuProfiling [] initial_world)) \<and>
   (\<exists>w1. exec [Call_stopCpuProfiling, CaptureResolved 0 (Profile 0)]
           (startCpuProfiling [] initial_world) = Some w1 \<and>
         pending w1 = [Encode (Profile 0) CpuRound])"
proof -
  have h: "Capture 0 \<in> set (pending (startCpuProfiling [] initial_world))"
    by (simp add: initial_world_def call_defs)
  have "pending (startCpuProfiling [] initial_world) = [Capture 0]"
    by (simp add: initial_world_def call_defs)
  with stop_is_eventual [OF h, of "Profile 0" "[]"] h show ?thesis
    by (auto simp del: exec.simps)
qed

lemma request_event_frame:
  "request_event e \<Longrightarrow> step e w = Some w' \<Longrightarrow>
     isCpuProfilingRunning w' = isCpuProfilingRunning w \<and>
     (Immediate l \<in> set (pending w')) = (Immediate l \<in> set (pending w))"
  by (cases e) (auto simp: call_defs split: if_splits origin.splits option.splits)

lemma request_events_frame:
  "list_all request_event es \<Longrightarrow> exec es w = Some w' \<Longrightarrow>
     isCpuProfilingRunning w' = isCpuProfilingRunning w \<and>
     (Immediate l \<in> set (pending w')) = (Immediate l \<in> set (pending w))"
proof (induction es arbitrary: w)
  case Nil
  then show ?case by simp
next
  case (Cons e es)
  then obtain w1 where s: "step e w = Some w1" and r: "exec es w1 = Some w'"
    by (auto split: option.splits)
  from Cons.prems have "request_event e" "list_all request_event es" by simp_all
  with request_event_frame [OF _ s, of l] Cons.IH [OF _ r] show ?case by simp
qed

text \<open>
  What holds of the loop and the upload. While the flag is set, the callback that runs
  when the capture of a round resolves queues the next round before it calls
  \<open>uploadProfile\<close>. Once the encoder has answered, whatever happens to the request
  (it succeeds, or fails in any of the three ways), for this round or for earlier ones,
  the flag stays set, the next round stays queued, and when it runs it starts the next
  capture.
\<close>

lemma request_outcome_keeps_loop:
  assumes "isCpuProfilingRunning w" and "Capture l \<in> set (pending w)"
    and "list_all request_event uevs"
    and "exec (CaptureResolved l p # uevs) w = Some w'"
  shows "(\<exists>w1. step (CaptureResolved l p) w = Some w1 \<and>
            pending w1 = remove1 (Capture l) (pending w) @ [Immediate l, Encode p CpuRound]) \<and>
     isCpuProfilingRunning w' \<and> Immediate l \<in> set (pending w') \<and>
     (\<exists>w''. step (ImmediateRuns l) w' = Some w'' \<and> Capture l \<in> set (pending w''))"
proof -
  obtain w1 where s: "step (CaptureResolved l p) w = Some w1" and r: "exec uevs w1 = Some w'"
    using assms(4) by (auto split: option.splits)
  have p1: "pending w1 = remove1 (Capture l) (pending w) @ [Immediate l, Encode p CpuRound]"
    and r1: "isCpuProfilingRunning w1"
    using s assms(1,2) by (auto simp: call_defs)
  from request_events_frame [OF assms(3) r, of l] p1 r1
  have "isCpuProfilingRunning w'" "Immediate l \<in> set (pending w')" by simp_all
  moreover from this have
    "\<exists>w''. step (ImmediateRuns l) w' = Some w'' \<and> Capture l \<in> set (pending w'')"
    by (simp add: call_defs)
  ultimately show ?thesis using s p1 by simp
qed

text \<open>A run of it: the request of the first round fails, the second round is still queued.\<close>

lemma request_outcome_keeps_loop_run:
  "\<exists>w'. exec [CaptureResolved 0 (Profile 0),
               EncodeResolved (Profile 0) CpuRound [1, 2],
               HttpRejected (build_request initial_config [1, 2]) CpuRound
                 \<lparr>err_response = None, err_request = None, message = ''no route''\<rparr>]
           (startCpuProfiling [] initial_world) = Some w' \<and>
         isCpuProfilingRunning w' \<and> Immediate 0 \<in> set (pending w')"
  by (simp add: initial_world_def call_defs)

text \<open>The failure of the encoder, in whatever state: nothing of the module runs after it.\<close>

lemma encoder_failure_unhandled:
  "step (EncodeRejected p caller) w = Some w' \<Longrightarrow>
     pending w' = [] \<and> timers w' = [] \<and> unhandled w' = Suc (unhandled w) \<and>
     logged w' = logged w \<and> sent w' = sent w"
  by (auto simp: complete_def uploaded_def unhandledRejection_def split: if_splits)

text \<open>
  Claim C8, on the code. The callback of a resolved capture does queue the next round
  before it calls \<open>uploadProfile\<close>, whatever the upload will come to. But one outcome of
  the upload ends the loop: \<open>uploadProfile\<close> awaits \<open>pprof.encode\<close> before it reaches
  \<open>axios(...).catch(handleError)\<close>, so a failure of the encoder rejects its promise, and
  the chain \<open>.then(...).then(...)\<close> of the round has no handler for it. With the flag
  still set, the round that was queued never runs: no \<open>log\<close> call reports the failure,
  and nothing is in flight any more.
\<close>

theorem encoder_failure_ends_loop:
  "\<exists>w1 w. exec [Call_startCpuProfiling [], CaptureResolved 0 p] initial_world = Some w1 \<and>
     isCpuProfilingRunning w1 \<and> Immediate 0 \<in> set (pending w1) \<and>
     step (EncodeRejected p CpuRound) w1 = Some w \<and>
     isCpuProfilingRunning w \<and> unhandled w = 1 \<and> logged w = logged w1 \<and>
     pending w = [] \<and> step (ImmediateRuns 0) w = None"
  by (simp add: initial_world_def call_defs)

text \<open>
  The rounds of one loop. A call of \<open>startCpuProfiling\<close> makes a new loop with its
  first round; after that, a round of the loop comes into being only where the callback
  of a resolved capture queues it, in place of the round that has ended.
\<close>

lemma count_list_remove1:
  "count_list (remove1 x xs) y =
     (if x = y \<and> x \<in> set xs then count_list xs y - 1 else count_list xs y)"
  by (induction xs) auto

lemma count_list_pos: "x \<in> set xs \<Longrightarrow> 0 < count_list xs x"
  by (induction xs) auto

lemma rounds_startCpuProfiling:
  "rounds l (startCpuProfiling tgs w) = rounds l w + (if l = next_loop w then 1 else 0) \<and>
   next_loop (startCpuProfiling tgs w) = Suc (next_loop w)"
  by (simp add: rounds_def startCpuProfiling_def profilingRound_def time_profile_def
      log_def await_def Let_def)

lemma rounds_startHeapProfiling:
  "rounds l (startHeapProfiling tgs w) = rounds l w \<and>
   next_loop (startHeapProfiling tgs w) = next_loop w"
  by (simp add: rounds_def startHeapProfiling_def log_def await_def)


lemma init_cases:
  "\<exists>w3. (\<forall>l. rounds l w3 = rounds l w) \<and> next_loop w3 = next_loop w \<and>
     (init arg w = w3 \<or> init arg w = startHeapProfiling [] (startCpuProfiling [] w3))"
proof -
  define c where "c = (case arg of None \<Rightarrow> default_c | Some c' \<Rightarrow> c')"
  define w1 where "w1 = w\<lparr>config := (config w)\<lparr>server := or_else (c_server c) DEFAULT_SERVER,
                                        sourceMapPath := c_sourceMapPath c\<rparr>\<rparr>"
  define w2 where "w2 = (case sourceMapPath (config w1) of
                  Some paths \<Rightarrow> await (ConfigMapper paths) w1
                | None \<Rightarrow> w1)"
  define w3 where "w3 = w2\<lparr>config := (config w2)\<lparr>tags := c_tags c\<rparr>\<rparr>"
  have i: "init arg w = (if c_autoStart c then startHeapProfiling [] (startCpuProfiling [] w3) else w3)"
    by (simp only: init_def Let_def w3_def w2_def w1_def c_def)
  have "rounds l w3 = rounds l w" for l
    by (simp add: rounds_def w3_def w2_def w1_def await_def split: option.splits)
  moreover have "next_loop w3 = next_loop w"
    by (simp add: w3_def w2_def w1_def await_def split: option.splits)
  ultimately show ?thesis using i by (cases "c_autoStart c") auto
qed

lemma inv_startCpuProfiling:
  assumes "\<forall>l. rounds l w \<le> (if l < next_loop w then 1 else 0)"
  shows "\<forall>l. rounds l (startCpuProfiling tgs w)
           \<le> (if l < next_loop (startCpuProfiling tgs w) then 1 else 0)"
proof
  fix l
  from assms have "rounds l w \<le> (if l < next_loop w then 1 else 0)"
    and "rounds (next_loop w) w \<le> (if next_loop w < next_loop w then 1 else 0)" by blast+
  then show "rounds l (startCpuProfiling tgs w)
           \<le> (if l < next_loop (startCpuProfiling tgs w) then 1 else 0)"
    by (simp add: rounds_startCpuProfiling split: if_splits)
qed

lemma inv_init:
  assumes "\<forall>l. rounds l w \<le> (if l < next_loop w then 1 else 0)"
  shows "\<forall>l. rounds l (init arg w) \<le> (if l < next_loop (init arg w) then 1 else 0)"
proof -
  from init_cases [of w arg] obtain w3 where
    r: "\<forall>l. rounds l w3 = rounds l w" and n: "next_loop w3 = next_loop w" and
    i: "init arg w = w3 \<or> init arg w = startHeapProfiling [] (startCpuProfiling [] w3)"
    by blast
  have a: "\<forall>l. rounds l w3 \<le> (if l < next_loop w3 then 1 else 0)"
    using assms r n by simp
  from i show ?thesis
  proof
    assume "init arg w = w3"
    then show ?thesis using a by simp
  next
    assume "init arg w = startHeapProfiling [] (startCpuProfiling [] w3)"
    then show ?thesis
      using inv_startCpuProfiling [OF a, of "[]"] by (simp add: rounds_startHeapProfiling)
  qed
qed


lemma step_rounds:
  assumes "\<forall>l. rounds l w \<le> (if l < next_loop w then 1 else 0)"
    and "step e w = Some w'"
  shows "\<forall>l. rounds l w' \<le> (if l < next_loop w' then 1 else 0)"
proof (cases e)
  case (Call_init arg)
  then show ?thesis using assms inv_init [of w arg] by simp
next
  case (Call_startCpuProfiling tgs)
  then show ?thesis using assms inv_startCpuProfiling [of w tgs] by simp
next
  case (Call_startHeapProfiling tgs)
  then have "w' = startHeapProfiling tgs w" using assms(2) by simp
  then show ?thesis using assms(1) by (simp add: rounds_startHeapProfiling)
next
  case (CaptureResolved l' p)
  then have "Capture l' \<in> set (pending w)"
    using assms(2) by (auto simp: complete_def split: if_splits)
  then have c: "0 < count_list (pending w) (Capture l')" by (rule count_list_pos)
  show ?thesis
  proof
    fix l
    from assms(1) have "rounds l w \<le> (if l < next_loop w then 1 else 0)"
      and "rounds l' w \<le> (if l' < next_loop w then 1 else 0)" by blast+
    then show "rounds l w' \<le> (if l < next_loop w' then 1 else 0)"
      using c assms(2) CaptureResolved
      by (auto simp: complete_def profilingRound_then_def uploadProfile_def log_def
          await_def Let_def rounds_def count_list_remove1 split: if_splits)
  qed
next
  case (ImmediateRuns l')
  then have "Immediate l' \<in> set (pending w)"
    using assms(2) by (auto simp: complete_def split: if_splits)
  then have c: "0 < count_list (pending w) (Immediate l')" by (rule count_list_pos)
  show ?thesis
  proof
    fix l
    from assms(1) have "rounds l w \<le> (if l < next_loop w then 1 else 0)"
      and "rounds l' w \<le> (if l' < next_loop w then 1 else 0)" by blast+
    then show "rounds l w' \<le> (if l < next_loop w' then 1 else 0)"
      using c assms(2) ImmediateRuns
      by (auto simp: complete_def profilingRound_def time_profile_def log_def
          await_def rounds_def count_list_remove1 split: if_splits)
  qed
qed (use assms in \<open>auto simp: stopCpuProfiling_def stopHeapProfiling_def
      startHeapProfiling_resumed_def heap_tick_def uploadProfile_def
      uploadProfile_encoded_def uploaded_def unhandledRejection_def axios_catch_def
      handleError_def log_def await_def complete_def Let_def rounds_def count_list_remove1
      split: if_splits option.splits origin.splits\<close>)


lemma exec_rounds:
  "\<forall>l. rounds l w \<le> (if l < next_loop w then 1 else 0) \<Longrightarrow> exec evs w = Some w' \<Longrightarrow>
     \<forall>l. rounds l w' \<le> (if l < next_loop w' then 1 else 0)"
proof (induction evs arbitrary: w)
  case Nil
  then show ?case by simp
next
  case (Cons e es)
  then obtain w1 where s: "step e w = Some w1" and r: "exec es w1 = Some w'"
    by (auto split: option.splits)
  from step_rounds [OF Cons.prems(1) s] r show ?case by (rule Cons.IH)
qed

text \<open>
  Claim C6. In every state the module can reach, a loop has at most one round: one
  capture in flight, or one run of \<open>profilingRound\<close> queued, never both and never two.
  So when the queued run starts the capture of round N+1, no capture of that loop is in
  flight: that of round N has resolved (its callback is what queued the run).
\<close>

theorem rounds_do_not_overlap:
  assumes "exec evs initial_world = Some w"
  shows "count_list (pending w) (Capture l) + count_list (pending w) (Immediate l) \<le> 1 \<and>
     (\<forall>w'. step (ImmediateRuns l) w = Some w' \<longrightarrow>
        Capture l \<notin> set (pending w) \<and> count_list (pending w') (Capture l) = 1)"
proof -
  have "\<forall>l. rounds l initial_world \<le> (if l < next_loop initial_world then 1 else 0)"
    by (simp add: rounds_def initial_world_def)
  from exec_rounds [OF this assms]
  have "rounds l w \<le> (if l < next_loop w then 1 else 0)" by blast
  then have b: "rounds l w \<le> 1" by (simp split: if_splits)
  have "Capture l \<notin> set (pending w) \<and> count_list (pending w') (Capture l) = 1"
    if "step (ImmediateRuns l) w = Some w'" for w'
  proof -
    from that have i: "Immediate l \<in> set (pending w)"
      and w': "w' = profilingRound l (w\<lparr>pending := remove1 (Immediate l) (pending w)\<rparr>)"
      by (auto simp: complete_def split: if_splits)
    from i have "0 < count_list (pending w) (Immediate l)" by (rule count_list_pos)
    with b have "count_list (pending w) (Capture l) = 0" by (simp add: rounds_def)
    then show ?thesis
      using w' by (simp add: count_list_0_iff profilingRound_def time_profile_def log_def
          await_def count_list_remove1)
  qed
  then show ?thesis using b by (simp add: rounds_def)
qed

lemma first_round_resolved:
  "\<exists>w w'. exec [Call_startCpuProfiling [], CaptureResolved 0 (Profile 0)] initial_world
             = Some w \<and>
          step (ImmediateRuns 0) w = Some w'"
  by (simp add: initial_world_def call_defs)

theorem rounds_do_not_overlap_witness:
  "\<exists>w w'. exec [Call_startCpuProfiling [], CaptureResolved 0 (Profile 0)] initial_world
             = Some w \<and>
          step (ImmediateRuns 0) w = Some w' \<and>
          Capture 0 \<notin> set (pending w) \<and> count_list (pending w') (Capture 0) = 1"
proof -
  obtain w w' where
    h: "exec [Call_startCpuProfiling [], CaptureResolved 0 (Profile 0)] initial_world = Some w"
    and s: "step (ImmediateRuns 0) w = Some w'"
    using first_round_resolved by blast
  from rounds_do_not_overlap [OF h, of 0] s h show ?thesis by blast
qed

end
